theory Spec2Isabelle
  imports Main "HOL-Library.Sublist"
begin

section \<open>Errors (errors.go)\<close>

text \<open>
  Go's \<open>error\<close> interface, restricted to the values this program builds or receives:
  the three error structs of errors.go, the wrapper made by
  \<open>fmt.Errorf("<prefix>: %w", err)\<close> in the client, and an error of the standard library
  (net/http, io, encoding/json, context), known by its message only.
  A Go \<open>string\<close> is a byte sequence: \<open>string\<close> (a list of 8-bit characters) here.
\<close>

datatype error =
    ProjectNotFoundError string
  | ValidationError string string
  | APIError int string
  | Errorf string error
  | LibraryError string

text \<open>\<open>%d\<close> of \<open>fmt.Sprintf\<close>: the decimal digits, with a minus sign below zero.\<close>

definition digit :: "nat \<Rightarrow> char" where
  "digit d = char_of (of_char (CHR ''0'') + d)"

function show_nat :: "nat \<Rightarrow> string" where
  "show_nat n = (if n < 10 then [digit n] else show_nat (n div 10) @ [digit (n mod 10)])"
  by pat_completeness auto
termination
  by (relation "measure id") auto

definition show_int :: "int \<Rightarrow> string" where
  "show_int i = (if i < 0 then CHR ''-'' # show_nat (nat (- i)) else show_nat (nat i))"

text \<open>\<open>%t\<close> of \<open>fmt.Sprintf\<close>.\<close>

definition show_bool :: "bool \<Rightarrow> string" where
  "show_bool b = (if b then ''true'' else ''false'')"

text \<open>The \<open>Error()\<close> methods; \<open>%v\<close> of an error prints this string.\<close>

fun Error :: "error \<Rightarrow> string" where
  "Error (ProjectNotFoundError permalink) = ''project not found: '' @ permalink"
| "Error (ValidationError field message) =
     ''validation error for '' @ field @ '': '' @ message"
| "Error (APIError statusCode message) =
     ''API error '' @ show_int statusCode @ '': '' @ message"
| "Error (Errorf pre err) = pre @ '': '' @ Error err"
| "Error (LibraryError msg) = msg"

section \<open>Validation (validation.go)\<close>

text \<open>
  \<open>strings.TrimSpace\<close> removes the leading and the trailing white space of a string, white
  space being the code points with Unicode's White_Space property (\<open>unicode.IsSpace\<close>).
  A Go string holds UTF-8, so each such code point is the byte sequence listed here:
  U+0009 to U+000D, U+0020, U+0085, U+00A0, U+1680, U+2000 to U+200A, U+2028, U+2029,
  U+202F, U+205F and U+3000. A byte that starts no valid encoding decodes to U+FFFD,
  which is not white space.
\<close>

definition white_space :: "string list" where
  "white_space =
    [[CHR 0x09], [CHR 0x0A], [CHR 0x0B], [CHR 0x0C], [CHR 0x0D], [CHR 0x20],
     [CHR 0xC2, CHR 0x85], [CHR 0xC2, CHR 0xA0],
     [CHR 0xE1, CHR 0x9A, CHR 0x80],
     [CHR 0xE2, CHR 0x80, CHR 0x80], [CHR 0xE2, CHR 0x80, CHR 0x81],
     [CHR 0xE2, CHR 0x80, CHR 0x82], [CHR 0xE2, CHR 0x80, CHR 0x83],
     [CHR 0xE2, CHR 0x80, CHR 0x84], [CHR 0xE2, CHR 0x80, CHR 0x85],
     [CHR 0xE2, CHR 0x80, CHR 0x86], [CHR 0xE2, CHR 0x80, CHR 0x87],
     [CHR 0xE2, CHR 0x80, CHR 0x88], [CHR 0xE2, CHR 0x80, CHR 0x89],
     [CHR 0xE2, CHR 0x80, CHR 0x8A],
     [CHR 0xE2, CHR 0x80, CHR 0xA8], [CHR 0xE2, CHR 0x80, CHR 0xA9],
     [CHR 0xE2, CHR 0x80, CHR 0xAF],
     [CHR 0xE2, CHR 0x81, CHR 0x9F],
     [CHR 0xE3, CHR 0x80, CHR 0x80]]"

function trimLeftSpace :: "string \<Rightarrow> string" where
  "trimLeftSpace s =
     (case find (\<lambda>e. prefix e s) white_space of
        None \<Rightarrow> s
      | Some e \<Rightarrow> trimLeftSpace (drop (length e) s))"
  by pat_completeness auto
termination
proof (relation "measure length", simp, goal_cases)
  case (1 s e)
  then have "e \<in> set white_space" and "prefix e s"
    by (auto simp: find_Some_iff)
  then have "e \<noteq> []" and "length e \<le> length s"
    by (auto simp: white_space_def prefix_length_le)
  then show ?case by (cases s) auto
qed

function trimRightSpace :: "string \<Rightarrow> string" where
  "trimRightSpace s =
     (case find (\<lambda>e. suffix e s) white_space of
        None \<Rightarrow> s
      | Some e \<Rightarrow> trimRightSpace (take (length s - length e) s))"
  by pat_completeness auto
termination
proof (relation "measure length", simp, goal_cases)
  case (1 s e)
  then have "e \<in> set white_space" and "suffix e s"
    by (auto simp: find_Some_iff)
  then have "e \<noteq> []" and "length e \<le> length s"
    by (auto simp: white_space_def suffix_length_le)
  then show ?case by (cases s) auto
qed

definition TrimSpace :: "string \<Rightarrow> string" where
  "TrimSpace s = trimRightSpace (trimLeftSpace s)"

text \<open>\<open>Validator\<close> is an empty struct.\<close>

datatype Validator = Validator

definition ValidateProjectPermalink :: "Validator \<Rightarrow> string \<Rightarrow> error option" where
  "ValidateProjectPermalink v permalink =
     (if TrimSpace permalink = ''''
      then Some (ValidationError ''project_permalink'' ''cannot be empty'')
      else None)"

text \<open>
  The dynamic values of \<open>interface{}\<close> that a decoded JSON document holds: nil, bool,
  float64 (mantissa and binary exponent), string, slice and map.
\<close>

datatype any =
    AnyNil
  | AnyBool bool
  | AnyFloat64 int int
  | AnyString string
  | AnySlice "any list"
  | AnyMap "(string \<times> any) list"

text \<open>
  \<open>arguments["project_permalink"].(string)\<close>: a missing key reads as the nil interface,
  and the type assertion holds for a dynamic string only.
\<close>

definition ValidateToolArguments ::
  "Validator \<Rightarrow> (string \<rightharpoonup> any) \<Rightarrow> string \<times> error option" where
  "ValidateToolArguments v arguments =
     (case arguments ''project_permalink'' of
        Some (AnyString projectPermalink) \<Rightarrow>
          (projectPermalink, ValidateProjectPermalink v projectPermalink)
      | _ \<Rightarrow> ('''', Some (ValidationError ''project_permalink'' ''must be a string'')))"

section \<open>Data model\<close>

record CerebroAPIParameters =
  searchKey :: string
  searchValue :: string
  inlines :: string
  includes' :: string

text \<open>
  The field \<open>includes\<close> is written \<open>includes'\<close>: the plain name is a keyword of
  Isabelle. Go's \<open>int\<close> fields hold identifiers that are only compared and printed, never computed
  with: \<open>int\<close> here. A slice that is only read is a list.
\<close>

record Project =
  ID :: int
  Name :: string
  Permalink :: string
  Description :: string
  StartedOn :: string
  CreatedAt :: string
  UpdatedAt :: string
  SlackChannel :: string
  Nickname :: string
  CPUUsage :: string
  MemoryUsage :: string
  Category :: string
  DeployTarget :: string
  InScopeForSOC2 :: string
  RunsOn :: string
  TFA :: string
  CriticalityTier :: string
  CalculatedCriticalityTier :: string
  ReleaseState :: string
  LinkRepositoryURLs :: "string list"
  ProjectRepositoryURLs :: "string list"
  ProjectStakeholderOwner :: string
  ProjectStakeholderOncall :: string
  DependentProjectDependenciesIds :: "int list"
  PrimaryDeploymentUrl :: string
  AdditionalDeploymentUrls :: "string list"

record ProjectDependency =
  ID :: int
  DependentProjectID :: int
  ProvidingProjectID :: int
  CreatedAt :: string
  UpdatedAt :: string
  Description :: string
  Optional :: bool
  DeletedAt :: "string option"

record APIResponse =
  Pagination :: "string \<rightharpoonup> any"
  Projects :: "Project list"
  ProjectDependencies :: "ProjectDependency list"

record ProjectDetailsResult =
  Project :: Project
  FormattedText :: string

record ProjectDependenciesResult =
  Project :: Project
  ProjectDependencies :: "ProjectDependency list"
  FormattedText :: string

section \<open>The catalog client\<close>

text \<open>
  What lies outside the repository is a parameter of the model.

  A \<open>context.Context\<close> is seen through the state it is in when it is passed: live,
  canceled, or past its deadline. A cancellation during a run shows in the answers of
  the network, which are errors from that moment on.
  Of \<open>http.Request\<close> and \<open>http.Response\<close> the fields the client touches are kept;
  \<open>Body\<close> is what \<open>io.ReadAll(resp.Body)\<close> gives.
\<close>

datatype Context = Background | Canceled | DeadlineExceeded

record Request =
  Method :: string
  URL :: string
  Header :: "string \<rightharpoonup> string list"
  Ctx :: Context

record Response =
  StatusCode :: int
  Body :: "error + string"

text \<open>
  \<open>http.Client\<close>: \<open>Do\<close> sends one request and gives the response or a transport error.
  Its first argument is the list of the requests sent through the client so far, oldest
  first: the network may answer the same request differently at different moments, and
  the model lets the answer depend on everything that was sent before.
\<close>

record Client =
  Do :: "Request list \<Rightarrow> Request \<Rightarrow> error + Response"

text \<open>
  The pure functions of the standard library that the client calls: \<open>url.Values.Encode\<close>,
  \<open>http.NewRequestWithContext\<close> (context, method, URL) and \<open>json.Unmarshal\<close> into an
  \<open>APIResponse\<close>.
\<close>

record stdlib =
  Encode :: "(string \<rightharpoonup> string list) \<Rightarrow> string"
  NewRequestWithContext :: "Context \<Rightarrow> string \<Rightarrow> string \<Rightarrow> error + Request"
  Unmarshal :: "string \<Rightarrow> error + APIResponse"

record CerebroClient =
  baseURL :: string
  httpClient :: Client
  token :: string

text \<open>
  \<open>url.Values\<close> and \<open>http.Header\<close> are maps from a key to a list of values; \<open>Set\<close>
  replaces the list of a key and \<open>Add\<close> appends to it. The two header keys set by the
  client are in canonical form already.
\<close>

definition Values_Set ::
  "(string \<rightharpoonup> string list) \<Rightarrow> string \<Rightarrow> string \<Rightarrow> (string \<rightharpoonup> string list)" where
  "Values_Set v key val = v(key \<mapsto> [val])"

definition Values_Add ::
  "(string \<rightharpoonup> string list) \<Rightarrow> string \<Rightarrow> string \<Rightarrow> (string \<rightharpoonup> string list)" where
  "Values_Add v key val = v(key \<mapsto> (case v key of None \<Rightarrow> [] | Some vs \<Rightarrow> vs) @ [val])"

definition buildURL :: "stdlib \<Rightarrow> CerebroClient \<Rightarrow> CerebroAPIParameters \<Rightarrow> string" where
  "buildURL lib c params =
     (let urlParams = Values_Set Map.empty (''search['' @ searchKey params @ '']'')
                        (searchValue params);
          urlParams = (if length (includes' params) \<noteq> 0
                       then Values_Add urlParams ''includes'' (includes' params)
                       else urlParams);
          urlParams = (if length (inlines params) \<noteq> 0
                       then Values_Add urlParams ''inlines'' (inlines params)
                       else urlParams)
      in baseURL c @ ''?'' @ Encode lib urlParams)"

text \<open>
  \<open>makeRequest\<close> takes the requests sent so far and returns them with its own request
  added, when it reaches \<open>httpClient.Do\<close>: the list is the record of the network calls
  the program has made.
\<close>

definition makeRequest ::
  "stdlib \<Rightarrow> CerebroClient \<Rightarrow> Context \<Rightarrow> string \<Rightarrow> Request list
     \<Rightarrow> (error + APIResponse) \<times> Request list" where
  "makeRequest lib c ctx apiURL sent =
     (case NewRequestWithContext lib ctx ''GET'' apiURL of
        Inl err \<Rightarrow> (Inl (Errorf ''failed to create request'' err), sent)
      | Inr req0 \<Rightarrow>
          (let req = req0\<lparr>Header := Values_Set (Header req0) ''Authorization''
                                       (''Token '' @ token c)\<rparr>;
               req = req\<lparr>Header := Values_Set (Header req) ''Accept'' ''application/json''\<rparr>
           in case Do (httpClient c) sent req of
                Inl err \<Rightarrow> (Inl (Errorf ''failed to execute request'' err), sent @ [req])
              | Inr resp \<Rightarrow>
                  (case Body resp of
                     Inl err \<Rightarrow> (Inl (Errorf ''failed to read response'' err), sent @ [req])
                   | Inr body \<Rightarrow>
                       if StatusCode resp < 200 \<or> StatusCode resp \<ge> 300
                       then (Inl (APIError (StatusCode resp) body), sent @ [req])
                       else (case Unmarshal lib body of
                               Inl err \<Rightarrow>
                                 (Inl (Errorf ''failed to parse JSON response'' err),
                                  sent @ [req])
                             | Inr apiResponse \<Rightarrow> (Inr apiResponse, sent @ [req])))))"

section \<open>The project service\<close>

record ProjectService =
  client :: CerebroClient
  validator :: Validator

definition inlines_all :: string where
  "inlines_all = ''project_repository_urls,project_stakeholder_owner_name,project_stakeholder_oncall_name,link_deployment_url,link_deployment_urls''"

definition nl :: string where
  "nl = [CHR 0x0A]"

text \<open>The body of the loop over \<open>project.ProjectRepositoryURLs\<close>, at index \<open>i\<close>.\<close>

definition formatRepositoryURL :: "nat \<times> string \<Rightarrow> string" where
  "formatRepositoryURL = (\<lambda>(i, repoURL). show_int (int i + 1) @ ''. '' @ repoURL @ nl)"

definition formatProjectDetails :: "ProjectService \<Rightarrow> Project \<Rightarrow> string \<Rightarrow> string" where
  "formatProjectDetails s project permalink =
     ''# Project Details for: '' @ permalink @ nl @ nl
     @ ''**Project Name:** '' @ Name project @ nl
     @ ''**Description:** '' @ Project.Description project @ nl
     @ ''**Category:** '' @ Category project @ nl
     @ ''**Calculated Criticality Tier:** '' @ CalculatedCriticalityTier project @ nl
     @ ''**Release State:** '' @ ReleaseState project @ nl
     @ ''**Owner:** '' @ ProjectStakeholderOwner project @ nl
     @ ''**Slack Channel:** '' @ SlackChannel project @ nl
     @ (if length (ProjectRepositoryURLs project) = 0
        then ''No project repository URLs found.'' @ nl
        else nl @ ''**Project Repository URLs (''
             @ show_int (int (length (ProjectRepositoryURLs project))) @ ''):**'' @ nl
             @ concat (map formatRepositoryURL (enumerate 0 (ProjectRepositoryURLs project))))"

definition GetProjectDetails ::
  "stdlib \<Rightarrow> ProjectService \<Rightarrow> Context \<Rightarrow> string \<Rightarrow> Request list
     \<Rightarrow> (error + ProjectDetailsResult) \<times> Request list" where
  "GetProjectDetails lib s ctx permalink sent =
     (case ValidateProjectPermalink (validator s) permalink of
        Some e \<Rightarrow> (Inl e, sent)
      | None \<Rightarrow>
          (let params = \<lparr>searchKey = ''permalink'', searchValue = permalink,
                         inlines = inlines_all, includes' = []\<rparr>;
               apiURL = buildURL lib (client s) params;
               (r, sent) = makeRequest lib (client s) ctx apiURL sent
           in case r of
                Inl e \<Rightarrow> (Inl e, sent)
              | Inr response \<Rightarrow>
                  if length (Projects response) = 0
                  then (Inl (ProjectNotFoundError permalink), sent)
                  else (let project = Projects response ! 0
                        in (Inr \<lparr>ProjectDetailsResult.Project = project,
                                 FormattedText = formatProjectDetails s project permalink\<rparr>,
                            sent))))"

definition filterDependencies ::
  "ProjectService \<Rightarrow> ProjectDependency list \<Rightarrow> int \<Rightarrow> ProjectDependency list" where
  "filterDependencies s deps projectID =
     filter (\<lambda>dep. DependentProjectID dep = projectID) deps"

record dependencyResult =
  index :: int
  dep :: ProjectDependency
  providingProject :: "Project option"
  err :: "error option"

text \<open>The zero values that \<open>make([]dependencyResult, n)\<close> fills the slice with.\<close>

definition zero_ProjectDependency :: ProjectDependency where
  "zero_ProjectDependency =
     \<lparr>ProjectDependency.ID = 0, DependentProjectID = 0, ProvidingProjectID = 0,
      CreatedAt = [], UpdatedAt = [], Description = [], Optional = False,
      DeletedAt = None\<rparr>"

definition zero_dependencyResult :: dependencyResult where
  "zero_dependencyResult =
     \<lparr>index = 0, dep = zero_ProjectDependency, providingProject = None, err = None\<rparr>"

text \<open>
  The function literal that \<open>fetchDependenciesAsync\<close> starts with \<open>go\<close> for each
  dependency, as one step on the shared state: the \<open>results\<close> slice, of which it writes
  the slot \<open>index\<close> only, and the requests sent so far. The index comes from the
  \<open>range\<close> loop, so it is within the slice.
\<close>

definition fetchDependency ::
  "stdlib \<Rightarrow> ProjectService \<Rightarrow> Context \<Rightarrow> nat \<Rightarrow> ProjectDependency
     \<Rightarrow> dependencyResult list \<times> Request list \<Rightarrow> dependencyResult list \<times> Request list" where
  "fetchDependency lib s ctx i dependency = (\<lambda>(results, sent).
     (let params = \<lparr>searchKey = ''id'',
                    searchValue = show_int (ProvidingProjectID dependency),
                    inlines = [], includes' = []\<rparr>;
          apiURL = buildURL lib (client s) params;
          (r, sent) = makeRequest lib (client s) ctx apiURL sent
      in case r of
           Inl e \<Rightarrow>
             (results[i := \<lparr>index = int i, dep = dependency,
                             providingProject = None, err = Some e\<rparr>], sent)
         | Inr response \<Rightarrow>
             if length (Projects response) = 0
             then (results[i := \<lparr>index = int i, dep = dependency,
                                  providingProject = None, err = None\<rparr>], sent)
             else (results[i := \<lparr>index = int i, dep = dependency,
                                  providingProject = Some (Projects response ! 0),
                                  err = None\<rparr>], sent)))"

text \<open>
  \<open>fetchDependenciesAsync\<close> starts one goroutine per dependency and returns after
  \<open>wg.Wait()\<close>, when all of them have finished. A goroutine shares with the others the
  slice, which it touches once, when it writes its slot, and the network; so a run is
  these steps in some order. The order is not the program's choice: it is the argument
  \<open>sched\<close>, the indices of the goroutines in the order in which they complete. A
  schedule of a run over \<open>n\<close> dependencies names each of the \<open>n\<close> goroutines once.
  The answer to a request may depend on the requests sent before it, which differ from
  one goroutine that reaches the network to the next: the network is free to give the
  edges any combination of answers, in any order of completion.
\<close>

definition run_goroutines ::
  "stdlib \<Rightarrow> ProjectService \<Rightarrow> Context \<Rightarrow> ProjectDependency list \<Rightarrow> nat list
     \<Rightarrow> dependencyResult list \<times> Request list \<Rightarrow> dependencyResult list \<times> Request list" where
  "run_goroutines lib s ctx dependencies sched =
     fold (\<lambda>i. fetchDependency lib s ctx i (dependencies ! i)) sched"

definition fetchDependenciesAsync ::
  "stdlib \<Rightarrow> ProjectService \<Rightarrow> Context \<Rightarrow> nat list \<Rightarrow> ProjectDependency list
     \<Rightarrow> Request list \<Rightarrow> dependencyResult list \<times> Request list" where
  "fetchDependenciesAsync lib s ctx sched dependencies sent =
     (let results = replicate (length dependencies) zero_dependencyResult
      in run_goroutines lib s ctx dependencies sched (results, sent))"

definition schedule :: "nat \<Rightarrow> nat list \<Rightarrow> bool" where
  "schedule n sched \<longleftrightarrow> distinct sched \<and> set sched = {..<n}"

text \<open>The body of the loop of \<open>formatDependencies\<close>, at index \<open>i\<close>.\<close>

definition formatDependency :: "nat \<times> dependencyResult \<Rightarrow> string" where
  "formatDependency = (\<lambda>(i, res).
     case err res of
       Some e \<Rightarrow>
         ''### '' @ show_int (int i + 1) @ ''. Error fetching project ID ''
           @ show_int (ProvidingProjectID (dep res)) @ nl
         @ ''- **Error:** '' @ Error e @ nl @ nl
     | None \<Rightarrow>
         (case providingProject res of
            None \<Rightarrow>
              ''### '' @ show_int (int i + 1) @ ''. Project ID ''
                @ show_int (ProvidingProjectID (dep res)) @ '' (Not Found)'' @ nl
              @ ''- **Dependency ID:** '' @ show_int (ProjectDependency.ID (dep res)) @ nl
              @ ''- **Optional:** '' @ show_bool (Optional (dep res)) @ nl @ nl
          | Some p \<Rightarrow>
              ''### '' @ show_int (int i + 1) @ ''. '' @ Name p @ nl
              @ ''- **Dependency ID:** '' @ show_int (ProjectDependency.ID (dep res)) @ nl
              @ ''- **Providing Project ID:** ''
                @ show_int (ProvidingProjectID (dep res)) @ nl
              @ ''- **Permalink:** '' @ Permalink p @ nl
              @ ''- **Description:** '' @ Project.Description p @ nl
              @ ''- **Category:** '' @ Category p @ nl
              @ ''- **Criticality Tier:** '' @ CalculatedCriticalityTier p @ nl
              @ ''- **Release State:** '' @ ReleaseState p @ nl
              @ ''- **Owner Team:** '' @ ProjectStakeholderOwner p @ nl
              @ ''- **Slack Channel:** '' @ SlackChannel p @ nl
              @ ''- **Optional Dependency:** '' @ show_bool (Optional (dep res)) @ nl
              @ (if ProjectDependency.Description (dep res) \<noteq> []
                 then ''- **Dependency Description:** ''
                      @ ProjectDependency.Description (dep res) @ nl
                 else [])
              @ nl))"

definition formatDependencies ::
  "ProjectService \<Rightarrow> Project \<Rightarrow> dependencyResult list \<Rightarrow> string" where
  "formatDependencies s project dependencyResults =
     ''# Dependencies for Project: '' @ Name project @ nl @ nl
     @ ''**Project ID:** '' @ show_int (Project.ID project) @ nl
     @ ''**Permalink:** '' @ Permalink project @ nl
     @ ''**Description:** '' @ Project.Description project @ nl @ nl
     @ ''## Dependencies ('' @ show_int (int (length dependencyResults)) @ '')'' @ nl @ nl
     @ concat (map formatDependency (enumerate 0 dependencyResults))"

definition GetProjectDependencies ::
  "stdlib \<Rightarrow> ProjectService \<Rightarrow> Context \<Rightarrow> nat list \<Rightarrow> string \<Rightarrow> Request list
     \<Rightarrow> (error + ProjectDependenciesResult) \<times> Request list" where
  "GetProjectDependencies lib s ctx sched permalink sent =
     (case ValidateProjectPermalink (validator s) permalink of
        Some e \<Rightarrow> (Inl e, sent)
      | None \<Rightarrow>
          (let params = \<lparr>searchKey = ''permalink'', searchValue = permalink,
                         inlines = inlines_all,
                         includes' = ''dependent_project_dependencies''\<rparr>;
               apiURL = buildURL lib (client s) params;
               (r, sent) = makeRequest lib (client s) ctx apiURL sent
           in case r of
                Inl e \<Rightarrow> (Inl e, sent)
              | Inr response \<Rightarrow>
                  if length (Projects response) = 0
                  then (Inl (ProjectNotFoundError permalink), sent)
                  else (let project = Projects response ! 0
                        in if length (APIResponse.ProjectDependencies response) = 0
                           then (Inr \<lparr>ProjectDependenciesResult.Project = project,
                                      ProjectDependencies = [],
                                      FormattedText = ''# No dependencies found for project: ''
                                                      @ Name project @ nl @ nl\<rparr>,
                                 sent)
                           else (let relevantDependencies =
                                       filterDependencies s
                                         (APIResponse.ProjectDependencies response)
                                         (Project.ID project);
                                     (dependenciesWithDetails, sent) =
                                       fetchDependenciesAsync lib s ctx sched
                                         relevantDependencies sent
                                 in (Inr \<lparr>ProjectDependenciesResult.Project = project,
                                          ProjectDependencies = relevantDependencies,
                                          FormattedText = formatDependencies s project
                                                            dependenciesWithDetails\<rparr>,
                                     sent)))))"

section \<open>Notions used in the statements\<close>

text \<open>
  A string that consists only of white space: a concatenation of encodings of white
  space code points (the empty concatenation is the empty string).
\<close>

definition only_whitespace :: "string \<Rightarrow> bool" where
  "only_whitespace s \<longleftrightarrow> (\<exists>ws. set ws \<subseteq> set white_space \<and> s = concat ws)"

text \<open>
  The catalog lookup of one dependency edge: the request that its goroutine makes, for
  the project with the identifier \<open>ProvidingProjectID\<close>, when \<open>sent\<close> has been sent
  before it.
\<close>

definition dependencyURL :: "stdlib \<Rightarrow> ProjectService \<Rightarrow> ProjectDependency \<Rightarrow> string" where
  "dependencyURL lib s dependency =
     buildURL lib (client s)
       \<lparr>searchKey = ''id'', searchValue = show_int (ProvidingProjectID dependency),
        inlines = [], includes' = []\<rparr>"

definition lookup ::
  "stdlib \<Rightarrow> ProjectService \<Rightarrow> Context \<Rightarrow> ProjectDependency \<Rightarrow> Request list
     \<Rightarrow> (error + APIResponse) \<times> Request list" where
  "lookup lib s ctx dependency sent =
     makeRequest lib (client s) ctx (dependencyURL lib s dependency) sent"

text \<open>
  The outcome of resolving the edge at position \<open>i\<close>, as the specification classifies
  it from the answer of the lookup: a failure when the lookup fails, not found when it
  matches no project, else the first project that it returned.
\<close>

definition edge_outcome ::
  "nat \<Rightarrow> ProjectDependency \<Rightarrow> error + APIResponse \<Rightarrow> dependencyResult" where
  "edge_outcome i d r =
     (case r of
        Inl e \<Rightarrow> \<lparr>index = int i, dep = d, providingProject = None, err = Some e\<rparr>
      | Inr response \<Rightarrow>
          (case Projects response of
             [] \<Rightarrow> \<lparr>index = int i, dep = d, providingProject = None, err = None\<rparr>
           | p # _ \<Rightarrow> \<lparr>index = int i, dep = d, providingProject = Some p, err = None\<rparr>))"

text \<open>
  What has been sent at the moment the goroutine \<open>i\<close> makes its request in the run with
  the schedule \<open>sched\<close>: the requests \<open>sent\<close> before the call and those of the goroutines
  that the schedule runs before \<open>i\<close>.
\<close>

definition sent_before ::
  "stdlib \<Rightarrow> ProjectService \<Rightarrow> Context \<Rightarrow> nat list \<Rightarrow> ProjectDependency list
     \<Rightarrow> Request list \<Rightarrow> nat \<Rightarrow> Request list" where
  "sent_before lib s ctx sched dependencies sent i =
     snd (run_goroutines lib s ctx dependencies (takeWhile (\<lambda>j. j \<noteq> i) sched)
            (replicate (length dependencies) zero_dependencyResult, sent))"

text \<open>
  The same service on a network that gives the answer \<open>a\<close> (a transport error or a
  response) to the request made at the moment \<open>h\<close>, when exactly \<open>h\<close> has been sent,
  and answers every other request as before.
\<close>

definition answer_at ::
  "Request list \<Rightarrow> error + Response \<Rightarrow> ProjectService \<Rightarrow> ProjectService" where
  "answer_at h a s =
     s\<lparr>client := (client s)\<lparr>httpClient :=
          \<lparr>Do = (\<lambda>sent req. if sent = h then a
                             else Do (httpClient (client s)) sent req)\<rparr>\<rparr>\<rparr>"

section \<open>A small catalog to run the model on\<close>

text \<open>
  The scenario of the specification: the project \<open>classic\<close> (identifier 5) depends on the
  projects 8, 10 and 999; the catalog holds 8 and 10 and has no project 999. The stand-ins
  for the library print the query as \<open>key=value;\<close> in the order of the keys and decode
  a body by its name. The network fails every request of a context that is canceled
  or past its deadline, and every request from the moment \<open>n\<close> requests have been sent
  when \<open>cancel = Some n\<close> (the live context is canceled during the run).
\<close>

definition demo_project :: "int \<Rightarrow> string \<Rightarrow> Project" where
  "demo_project i n =
     \<lparr>Project.ID = i, Name = n, Permalink = n, Description = ''a service'',
      StartedOn = [], CreatedAt = [], UpdatedAt = [], SlackChannel = ''#team'',
      Nickname = [], CPUUsage = [], MemoryUsage = [], Category = ''service'',
      DeployTarget = [], InScopeForSOC2 = [], RunsOn = [], TFA = [],
      CriticalityTier = [], CalculatedCriticalityTier = ''Tier 1'',
      ReleaseState = ''GA'', LinkRepositoryURLs = [], ProjectRepositoryURLs = [],
      ProjectStakeholderOwner = ''team'', ProjectStakeholderOncall = [],
      DependentProjectDependenciesIds = [], PrimaryDeploymentUrl = [],
      AdditionalDeploymentUrls = []\<rparr>"

definition demo_dependency :: "int \<Rightarrow> int \<Rightarrow> int \<Rightarrow> ProjectDependency" where
  "demo_dependency i dependent providing =
     \<lparr>ProjectDependency.ID = i, DependentProjectID = dependent,
      ProvidingProjectID = providing, CreatedAt = [], UpdatedAt = [], Description = [],
      Optional = False, DeletedAt = None\<rparr>"

definition demo_dependencies :: "ProjectDependency list" where
  "demo_dependencies =
     [demo_dependency 1 5 8, demo_dependency 2 5 10, demo_dependency 3 5 999]"

definition demo_lib :: stdlib where
  "demo_lib =
     \<lparr>Encode = (\<lambda>v. concat (map (\<lambda>k. case v k of None \<Rightarrow> []
                                       | Some vs \<Rightarrow> k @ ''='' @ concat vs @ '';'')
                         [''includes'', ''inlines'', ''search[id]'', ''search[permalink]''])),
      NewRequestWithContext =
        (\<lambda>ctx method url. Inr \<lparr>Method = method, URL = url, Header = Map.empty, Ctx = ctx\<rparr>),
      Unmarshal = (\<lambda>body.
        if body = ''classic'' then
          Inr \<lparr>Pagination = Map.empty, Projects = [demo_project 5 ''classic''],
               ProjectDependencies = demo_dependencies @ [demo_dependency 4 7 8]\<rparr>
        else if body = ''eight'' then
          Inr \<lparr>Pagination = Map.empty, Projects = [demo_project 8 ''eight''],
               ProjectDependencies = []\<rparr>
        else if body = ''ten'' then
          Inr \<lparr>Pagination = Map.empty, Projects = [demo_project 10 ''ten''],
               ProjectDependencies = []\<rparr>
        else if body = ''none'' then
          Inr \<lparr>Pagination = Map.empty, Projects = [], ProjectDependencies = []\<rparr>
        else Inl (LibraryError ''unexpected end of JSON input''))\<rparr>"

definition demo_catalog :: "string \<Rightarrow> error + Response" where
  "demo_catalog url =
     (if url = ''cerebro?includes=dependent_project_dependencies;inlines='' @ inlines_all
                 @ '';search[permalink]=classic;''
         \<or> url = ''cerebro?inlines='' @ inlines_all @ '';search[permalink]=classic;''
      then Inr \<lparr>StatusCode = 200, Body = Inr ''classic''\<rparr>
      else if url = ''cerebro?search[id]=8;''
      then Inr \<lparr>StatusCode = 200, Body = Inr ''eight''\<rparr>
      else if url = ''cerebro?search[id]=10;''
      then Inr \<lparr>StatusCode = 200, Body = Inr ''ten''\<rparr>
      else Inr \<lparr>StatusCode = 200, Body = Inr ''none''\<rparr>)"

definition demo_service :: "nat option \<Rightarrow> ProjectService" where
  "demo_service cancel =
     \<lparr>client =
        \<lparr>baseURL = ''cerebro'',
         httpClient = \<lparr>Do = (\<lambda>sent req.
           case Ctx req of
             Canceled \<Rightarrow> Inl (LibraryError ''context canceled'')
           | DeadlineExceeded \<Rightarrow> Inl (LibraryError ''context deadline exceeded'')
           | Background \<Rightarrow>
               if (case cancel of None \<Rightarrow> False | Some n \<Rightarrow> n \<le> length sent)
               then Inl (LibraryError ''context canceled'')
               else demo_catalog (URL req))\<rparr>,
         token = ''secret''\<rparr>,
      validator = Validator\<rparr>"

section \<open>White space\<close>

declare trimLeftSpace.simps [simp del] trimRightSpace.simps [simp del] show_nat.simps [simp del]

lemma white_space_nonempty: "e \<in> set white_space \<Longrightarrow> e \<noteq> []"
  by (auto simp: white_space_def)

text \<open>No encoding is the beginning of another one: checked on all pairs.\<close>

lemma white_space_pairs:
  "list_all (\<lambda>e. list_all (\<lambda>w. prefix e w \<longrightarrow> e = w) white_space) white_space"
  by code_simp

lemma white_space_prefix_code:
  "e \<in> set white_space \<Longrightarrow> w \<in> set white_space \<Longrightarrow> prefix e w \<Longrightarrow> e = w"
  using white_space_pairs by (simp add: list_all_iff)

lemma find_prefix_Some:
  "find (\<lambda>e. prefix e s) white_space = Some e \<Longrightarrow> e \<in> set white_space \<and> prefix e s"
  by (auto simp: find_Some_iff)

lemma find_suffix_Some:
  "find (\<lambda>e. suffix e s) white_space = Some e \<Longrightarrow> e \<in> set white_space \<and> suffix e s"
  by (auto simp: find_Some_iff)

lemma only_whitespace_Nil: "only_whitespace []"
  unfolding only_whitespace_def by (rule exI [of _ "[]"]) simp

lemma only_whitespace_prepend:
  assumes "e \<in> set white_space" and "only_whitespace s"
  shows "only_whitespace (e @ s)"
proof -
  from assms(2) obtain ws where "set ws \<subseteq> set white_space" and "s = concat ws"
    unfolding only_whitespace_def by blast
  with assms(1) have "set (e # ws) \<subseteq> set white_space \<and> e @ s = concat (e # ws)"
    by simp
  then show ?thesis unfolding only_whitespace_def by blast
qed

lemma only_whitespace_append:
  assumes "only_whitespace s" and "e \<in> set white_space"
  shows "only_whitespace (s @ e)"
proof -
  from assms(1) obtain ws where "set ws \<subseteq> set white_space" and "s = concat ws"
    unfolding only_whitespace_def by blast
  with assms(2) have "set (ws @ [e]) \<subseteq> set white_space \<and> s @ e = concat (ws @ [e])"
    by simp
  then show ?thesis unfolding only_whitespace_def by blast
qed

lemma trimLeftSpace_Nil_only_whitespace:
  "trimLeftSpace s = [] \<Longrightarrow> only_whitespace s"
proof (induction s rule: trimLeftSpace.induct)
  case (1 s)
  show ?case
  proof (cases "find (\<lambda>e. prefix e s) white_space")
    case None
    with "1.prems" have "s = []" by (simp add: trimLeftSpace.simps [of s])
    then show ?thesis by (simp add: only_whitespace_Nil)
  next
    case (Some e)
    then have e: "e \<in> set white_space" "prefix e s"
      using find_prefix_Some by blast+
    from Some "1.prems" have "trimLeftSpace (drop (length e) s) = []"
      by (simp add: trimLeftSpace.simps [of s])
    with "1.IH" Some have "only_whitespace (drop (length e) s)" by blast
    with e(1) have "only_whitespace (e @ drop (length e) s)"
      by (rule only_whitespace_prepend)
    moreover from e(2) have "e @ drop (length e) s = s"
      by (auto simp: prefix_def)
    ultimately show ?thesis by simp
  qed
qed

lemma trimLeftSpace_concat:
  "set ws \<subseteq> set white_space \<Longrightarrow> trimLeftSpace (concat ws) = []"
proof (induction ws)
  case Nil
  have "find (\<lambda>e. prefix e []) white_space = None"
    by (simp add: white_space_def)
  then show ?case by (simp add: trimLeftSpace.simps [of "[]"])
next
  case (Cons w ws)
  let ?s = "concat (w # ws)"
  from Cons.prems have w: "w \<in> set white_space" by simp
  have pw: "prefix w ?s" by simp
  with w have "find (\<lambda>e. prefix e ?s) white_space \<noteq> None"
    by (auto simp: find_None_iff)
  then obtain e where fe: "find (\<lambda>e. prefix e ?s) white_space = Some e" by blast
  then have e: "e \<in> set white_space" "prefix e ?s"
    using find_prefix_Some by blast+
  from e(2) pw have "prefix e w \<or> prefix w e"
    by (rule prefix_same_cases)
  with e(1) w have "e = w"
    using white_space_prefix_code by blast
  with fe have "trimLeftSpace ?s = trimLeftSpace (concat ws)"
    by (subst trimLeftSpace.simps) simp
  with Cons show ?case by simp
qed

lemma trimLeftSpace_no_prefix:
  "find (\<lambda>e. prefix e (trimLeftSpace s)) white_space = None"
proof (induction s rule: trimLeftSpace.induct)
  case (1 s)
  show ?case
  proof (cases "find (\<lambda>e. prefix e s) white_space")
    case None
    then show ?thesis by (simp add: trimLeftSpace.simps [of s])
  next
    case (Some e)
    with "1.IH" show ?thesis by (simp add: trimLeftSpace.simps [of s])
  qed
qed

lemma trimRightSpace_Nil_only_whitespace:
  "trimRightSpace s = [] \<Longrightarrow> only_whitespace s"
proof (induction s rule: trimRightSpace.induct)
  case (1 s)
  show ?case
  proof (cases "find (\<lambda>e. suffix e s) white_space")
    case None
    with "1.prems" have "s = []" by (simp add: trimRightSpace.simps [of s])
    then show ?thesis by (simp add: only_whitespace_Nil)
  next
    case (Some e)
    then have e: "e \<in> set white_space" "suffix e s"
      using find_suffix_Some by blast+
    from Some "1.prems" have "trimRightSpace (take (length s - length e) s) = []"
      by (simp add: trimRightSpace.simps [of s])
    with "1.IH" Some have "only_whitespace (take (length s - length e) s)" by blast
    then have "only_whitespace (take (length s - length e) s @ e)"
      using e(1) by (rule only_whitespace_append)
    moreover from e(2) have "take (length s - length e) s @ e = s"
      by (auto simp: suffix_def)
    ultimately show ?thesis by simp
  qed
qed

lemma only_whitespace_has_prefix:
  assumes "only_whitespace s" and "s \<noteq> []"
  shows "find (\<lambda>e. prefix e s) white_space \<noteq> None"
proof -
  from assms(1) obtain ws where ws: "set ws \<subseteq> set white_space" "s = concat ws"
    unfolding only_whitespace_def by blast
  with assms(2) obtain w ws' where "ws = w # ws'" by (cases ws) auto
  with ws have "w \<in> set white_space" and "prefix w s" by auto
  then show ?thesis by (auto simp: find_None_iff)
qed

text \<open>\<open>strings.TrimSpace\<close> leaves nothing exactly of the strings that are white space only.\<close>

lemma TrimSpace_Nil_iff: "TrimSpace s = [] \<longleftrightarrow> only_whitespace s"
proof
  assume t: "TrimSpace s = []"
  have "trimLeftSpace s = []"
  proof (rule ccontr)
    assume ne: "trimLeftSpace s \<noteq> []"
    from t have "only_whitespace (trimLeftSpace s)"
      unfolding TrimSpace_def by (rule trimRightSpace_Nil_only_whitespace)
    then have "find (\<lambda>e. prefix e (trimLeftSpace s)) white_space \<noteq> None"
      using ne by (rule only_whitespace_has_prefix)
    then show False by (simp add: trimLeftSpace_no_prefix)
  qed
  then show "only_whitespace s" by (rule trimLeftSpace_Nil_only_whitespace)
next
  assume "only_whitespace s"
  then obtain ws where "set ws \<subseteq> set white_space" and "s = concat ws"
    unfolding only_whitespace_def by blast
  then have l: "trimLeftSpace s = []" by (simp add: trimLeftSpace_concat)
  have "find (\<lambda>e. suffix e []) white_space = None"
    by (simp add: white_space_def)
  then have "trimRightSpace [] = []" by (simp add: trimRightSpace.simps [of "[]"])
  with l show "TrimSpace s = []" by (simp add: TrimSpace_def)
qed

text \<open>
  C9: a permalink that is white space only, the empty string included, is rejected by
  \<open>ValidateProjectPermalink\<close> with the \<open>ValidationError\<close> of the field
  \<open>project_permalink\<close>; a string with a character that is not white space is accepted
  (no error); and \<open>ValidateToolArguments\<close> returns a \<open>ValidationError\<close> of that field
  when the argument \<open>project_permalink\<close> is absent or is not a string.
\<close>

theorem ValidateProjectPermalink_whitespace:
  "(only_whitespace permalink \<longrightarrow>
      ValidateProjectPermalink v permalink
        = Some (ValidationError ''project_permalink'' ''cannot be empty''))
   \<and> (\<not> only_whitespace permalink \<longrightarrow> ValidateProjectPermalink v permalink = None)
   \<and> ((\<forall>str. arguments ''project_permalink'' \<noteq> Some (AnyString str)) \<longrightarrow>
        ValidateToolArguments v arguments
          = ([], Some (ValidationError ''project_permalink'' ''must be a string'')))"
  by (auto simp: ValidateProjectPermalink_def TrimSpace_Nil_iff ValidateToolArguments_def
           split: option.splits any.splits)

theorem ValidateProjectPermalink_whitespace_witness:
  "only_whitespace [CHR 0x20, CHR 0x09, CHR 0xC2, CHR 0xA0]
   \<and> ValidateProjectPermalink Validator [CHR 0x20, CHR 0x09, CHR 0xC2, CHR 0xA0]
       = Some (ValidationError ''project_permalink'' ''cannot be empty'')
   \<and> \<not> only_whitespace '' classic ''
   \<and> ValidateProjectPermalink Validator '' classic '' = None
   \<and> ValidateToolArguments Validator [''project_permalink'' \<mapsto> AnyBool True]
       = ([], Some (ValidationError ''project_permalink'' ''must be a string''))
   \<and> ValidateToolArguments Validator Map.empty
       = ([], Some (ValidationError ''project_permalink'' ''must be a string''))"
proof -
  have ws: "only_whitespace [CHR 0x20, CHR 0x09, CHR 0xC2, CHR 0xA0]"
    unfolding only_whitespace_def
    by (rule exI [of _ "[[CHR 0x20], [CHR 0x09], [CHR 0xC2, CHR 0xA0]]"])
       (simp add: white_space_def)
  have "TrimSpace '' classic '' \<noteq> []" by code_simp
  then have nws: "\<not> only_whitespace '' classic ''"
    by (simp add: TrimSpace_Nil_iff)
  have a1: "\<forall>str. [''project_permalink'' \<mapsto> AnyBool True] ''project_permalink''
              \<noteq> Some (AnyString str)"
    by simp
  have a2: "\<forall>str. (Map.empty :: string \<rightharpoonup> any) ''project_permalink'' \<noteq> Some (AnyString str)"
    by simp
  from ws nws a1 a2
    ValidateProjectPermalink_whitespace
      [of "[CHR 0x20, CHR 0x09, CHR 0xC2, CHR 0xA0]" Validator
          "[''project_permalink'' \<mapsto> AnyBool True]"]
    ValidateProjectPermalink_whitespace [of "'' classic ''" Validator Map.empty]
  show ?thesis by blast
qed

section \<open>The client's record of requests\<close>

lemma makeRequest_sent:
  "snd (makeRequest lib c ctx u h) =
     (case NewRequestWithContext lib ctx ''GET'' u of
        Inl e \<Rightarrow> h
      | Inr req0 \<Rightarrow>
          h @ [req0\<lparr>Header := Values_Set
                     (Values_Set (Header req0) ''Authorization'' (''Token '' @ token c))
                     ''Accept'' ''application/json''\<rparr>])"
  by (simp add: makeRequest_def Let_def split: sum.splits)

lemma makeRequest_prefix: "prefix h (snd (makeRequest lib c ctx u h))"
  by (simp add: makeRequest_sent split: sum.splits)

lemma makeRequest_sent_Inr:
  "makeRequest lib c ctx u h = (Inr response, h') \<Longrightarrow> \<exists>req. h' = h @ [req]"
  by (auto simp: makeRequest_def Let_def split: sum.splits if_splits)

lemma makeRequest_create_failed:
  "NewRequestWithContext lib ctx ''GET'' u = Inl e' \<Longrightarrow>
     makeRequest lib c ctx u h = (Inl (Errorf ''failed to create request'' e'), h)"
  by (simp add: makeRequest_def)

lemma lookup_sent_length:
  "NewRequestWithContext lib ctx ''GET'' (dependencyURL lib s d) = Inr req0 \<Longrightarrow>
     length (snd (lookup lib s ctx d h)) = Suc (length h)"
  by (simp add: lookup_def makeRequest_sent)

section \<open>The goroutines, in any order\<close>

text \<open>One goroutine: it writes the outcome of its own lookup into its own slot.\<close>

lemma fetchDependency_eq:
  "fetchDependency lib s ctx i d (rs, h) =
     (rs[i := edge_outcome i d (fst (lookup lib s ctx d h))], snd (lookup lib s ctx d h))"
  by (simp add: fetchDependency_def lookup_def dependencyURL_def edge_outcome_def Let_def
           split: prod.splits sum.splits list.splits)

lemma run_goroutines_Nil: "run_goroutines lib s ctx ds [] st = st"
  by (simp add: run_goroutines_def)

lemma run_goroutines_Cons:
  "run_goroutines lib s ctx ds (x # xs) st =
     run_goroutines lib s ctx ds xs (fetchDependency lib s ctx x (ds ! x) st)"
  by (simp add: run_goroutines_def)

lemma run_goroutines_append:
  "run_goroutines lib s ctx ds (xs @ ys) st =
     run_goroutines lib s ctx ds ys (run_goroutines lib s ctx ds xs st)"
  by (simp add: run_goroutines_def)

lemma length_run_goroutines:
  "length (fst (run_goroutines lib s ctx ds xs (rs, h))) = length rs"
  by (induction xs arbitrary: rs h)
     (simp_all add: run_goroutines_Nil run_goroutines_Cons fetchDependency_eq)

lemma run_goroutines_untouched:
  "i \<notin> set xs \<Longrightarrow> fst (run_goroutines lib s ctx ds xs (rs, h)) ! i = rs ! i"
  by (induction xs arbitrary: rs h)
     (simp_all add: run_goroutines_Nil run_goroutines_Cons fetchDependency_eq)

lemma run_goroutines_prefix:
  "prefix h (snd (run_goroutines lib s ctx ds xs (rs, h)))"
proof (induction xs arbitrary: rs h)
  case Nil
  then show ?case by (simp add: run_goroutines_Nil)
next
  case (Cons x xs)
  have "prefix h (snd (lookup lib s ctx (ds ! x) h))"
    by (simp add: lookup_def makeRequest_prefix)
  moreover have "prefix (snd (lookup lib s ctx (ds ! x) h))
      (snd (run_goroutines lib s ctx ds (x # xs) (rs, h)))"
    by (simp add: run_goroutines_Cons fetchDependency_eq Cons.IH)
  ultimately show ?case by (rule prefix_order.trans)
qed

lemma run_goroutines_sent_length:
  "length h \<le> length (snd (run_goroutines lib s ctx ds xs (rs, h)))"
  using run_goroutines_prefix [of h lib s ctx ds xs rs] by (rule prefix_length_le)

text \<open>
  The slot of a goroutine of the schedule holds the outcome of its own lookup, made when
  the goroutines before it in the schedule had made theirs.
\<close>

lemma run_goroutines_slot:
  assumes "distinct xs" and "i \<in> set xs" and "i < length rs"
  shows "fst (run_goroutines lib s ctx ds xs (rs, h)) ! i =
           edge_outcome i (ds ! i)
             (fst (lookup lib s ctx (ds ! i)
                (snd (run_goroutines lib s ctx ds (takeWhile (\<lambda>j. j \<noteq> i) xs) (rs, h)))))"
  using assms
proof (induction xs arbitrary: rs h)
  case Nil
  then show ?case by simp
next
  case (Cons x xs)
  show ?case
  proof (cases "x = i")
    case True
    with Cons.prems have "i \<notin> set xs" by simp
    with True Cons.prems(3) show ?thesis
      by (simp add: run_goroutines_Nil run_goroutines_Cons fetchDependency_eq
            run_goroutines_untouched)
  next
    case False
    with Cons.prems have "distinct xs" and "i \<in> set xs" by simp_all
    with Cons.IH [of "rs[x := edge_outcome x (ds ! x) (fst (lookup lib s ctx (ds ! x) h))]"
                     "snd (lookup lib s ctx (ds ! x) h)"] Cons.prems(3) False
    show ?thesis
      by (simp add: run_goroutines_Cons fetchDependency_eq)
  qed
qed

lemma fetchDependenciesAsync_slot:
  assumes "schedule (length dependencies) sched" and "i < length dependencies"
  shows "fst (fetchDependenciesAsync lib s ctx sched dependencies sent) ! i =
           edge_outcome i (dependencies ! i)
             (fst (lookup lib s ctx (dependencies ! i)
                     (sent_before lib s ctx sched dependencies sent i)))"
proof -
  from assms have "distinct sched" and "i \<in> set sched"
    by (auto simp: schedule_def)
  then show ?thesis
    using assms(2)
    by (simp add: fetchDependenciesAsync_def sent_before_def run_goroutines_slot)
qed

lemma length_fetchDependenciesAsync:
  "length (fst (fetchDependenciesAsync lib s ctx sched dependencies sent)) = length dependencies"
  by (simp add: fetchDependenciesAsync_def length_run_goroutines)

text \<open>
  On a network whose answers do not depend on what was sent before, the results are those
  of resolving the edges one after the other in the order of the input, whatever the
  order of completion.
\<close>

lemma lookup_stateless:
  assumes "\<forall>h h' req. Do (httpClient (client s)) h req = Do (httpClient (client s)) h' req"
  shows "fst (lookup lib s ctx d h) = fst (lookup lib s ctx d h')"
proof -
  have "Do (httpClient (client s)) h req = Do (httpClient (client s)) h' req" for req
    using assms by blast
  then show ?thesis
    by (simp add: lookup_def makeRequest_def Let_def split: sum.splits)
qed

lemma fetchDependenciesAsync_stateless:
  assumes "schedule (length dependencies) sched"
    and "\<forall>h h' req. Do (httpClient (client s)) h req = Do (httpClient (client s)) h' req"
  shows "fst (fetchDependenciesAsync lib s ctx sched dependencies sent) =
           map (\<lambda>(i, d). edge_outcome i d (fst (lookup lib s ctx d [])))
             (enumerate 0 dependencies)"
proof (rule nth_equalityI)
  show "length (fst (fetchDependenciesAsync lib s ctx sched dependencies sent)) =
          length (map (\<lambda>(i, d). edge_outcome i d (fst (lookup lib s ctx d [])))
                    (enumerate 0 dependencies))"
    by (simp add: length_fetchDependenciesAsync)
next
  fix i assume "i < length (fst (fetchDependenciesAsync lib s ctx sched dependencies sent))"
  then have i: "i < length dependencies"
    by (simp add: length_fetchDependenciesAsync)
  have "fst (lookup lib s ctx (dependencies ! i)
               (sent_before lib s ctx sched dependencies sent i))
          = fst (lookup lib s ctx (dependencies ! i) [])"
    using assms(2) by (rule lookup_stateless)
  with i show "fst (fetchDependenciesAsync lib s ctx sched dependencies sent) ! i =
          map (\<lambda>(i, d). edge_outcome i d (fst (lookup lib s ctx d [])))
            (enumerate 0 dependencies) ! i"
    by (simp add: fetchDependenciesAsync_slot [OF assms(1)] nth_enumerate_eq)
qed

section \<open>The claims on fetchDependenciesAsync\<close>

text \<open>
  C1: for a list of \<open>N\<close> dependencies and every order in which the goroutines run,
  \<open>fetchDependenciesAsync\<close> returns exactly \<open>N\<close> results, and the result at every index
  \<open>i\<close> is the outcome of resolving the dependency at index \<open>i\<close> of the input, from the
  answer its own lookup got: the order of the results is the order of the input, not
  the order of completion, whichever lookups succeed or fail.
\<close>

theorem fetchDependenciesAsync_order:
  assumes "schedule (length dependencies) sched"
  shows "length (fst (fetchDependenciesAsync lib s ctx sched dependencies sent))
           = length dependencies
         \<and> (\<forall>i < length dependencies.
               fst (fetchDependenciesAsync lib s ctx sched dependencies sent) ! i =
                 edge_outcome i (dependencies ! i)
                   (fst (lookup lib s ctx (dependencies ! i)
                           (sent_before lib s ctx sched dependencies sent i))))"
  using assms by (simp add: length_fetchDependenciesAsync fetchDependenciesAsync_slot)

theorem fetchDependenciesAsync_order_witness:
  "schedule (length demo_dependencies) [2, 0, 1]
   \<and> length (fst (fetchDependenciesAsync demo_lib (demo_service None) Background [2, 0, 1]
                    demo_dependencies []))
       = length demo_dependencies
   \<and> fst (fetchDependenciesAsync demo_lib (demo_service None) Background [2, 0, 1]
            demo_dependencies []) ! 0 =
       edge_outcome 0 (demo_dependencies ! 0)
         (fst (lookup demo_lib (demo_service None) Background (demo_dependencies ! 0)
                 (sent_before demo_lib (demo_service None) Background [2, 0, 1]
                    demo_dependencies [] 0)))"
proof -
  have h: "schedule (length demo_dependencies) [2, 0, 1]"
    by (auto simp: schedule_def demo_dependencies_def)
  have "0 < length demo_dependencies"
    by (simp add: demo_dependencies_def)
  with h fetchDependenciesAsync_order [OF h, of demo_lib "demo_service None" Background "[]"]
  show ?thesis by blast
qed

text \<open>
  The same run on a network that answers one request differently: what the goroutines
  send is the same, and only the lookup made at that moment can differ.
\<close>

lemma answer_at_fields:
  "baseURL (client (answer_at hk a s)) = baseURL (client s)"
  "token (client (answer_at hk a s)) = token (client s)"
  "Do (httpClient (client (answer_at hk a s))) h req =
     (if h = hk then a else Do (httpClient (client s)) h req)"
  by (simp_all add: answer_at_def)

lemma dependencyURL_answer_at:
  "dependencyURL lib (answer_at hk a s) d = dependencyURL lib s d"
  by (simp add: dependencyURL_def buildURL_def answer_at_fields)

lemma lookup_sent_answer_at:
  "snd (lookup lib (answer_at hk a s) ctx d h) = snd (lookup lib s ctx d h)"
  by (simp add: lookup_def dependencyURL_answer_at makeRequest_sent answer_at_fields
        split: sum.splits)

lemma lookup_answer_at_other:
  "h \<noteq> hk \<Longrightarrow> fst (lookup lib (answer_at hk a s) ctx d h) = fst (lookup lib s ctx d h)"
  by (simp add: lookup_def dependencyURL_answer_at makeRequest_def answer_at_fields
        Let_def split: sum.splits)

lemma lookup_answer_at_create_failed:
  "NewRequestWithContext lib ctx ''GET'' (dependencyURL lib s d) = Inl e' \<Longrightarrow>
     fst (lookup lib (answer_at hk a s) ctx d h) = fst (lookup lib s ctx d h)"
  by (simp add: lookup_def dependencyURL_answer_at makeRequest_create_failed)

lemma lookup_answer_at_hit:
  "NewRequestWithContext lib ctx ''GET'' (dependencyURL lib s d) = Inr req0 \<Longrightarrow>
     fst (lookup lib (answer_at hk (Inl e) s) ctx d hk)
       = Inl (Errorf ''failed to execute request'' e)"
  by (simp add: lookup_def dependencyURL_answer_at makeRequest_def answer_at_fields Let_def)

text \<open>What is sent does not depend on what the network answers.\<close>

lemma run_goroutines_sent_answer_at:
  "snd (run_goroutines lib (answer_at hk a s) ctx ds xs (rs, h))
     = snd (run_goroutines lib s ctx ds xs (rs', h))"
  by (induction xs arbitrary: rs rs' h)
     (simp_all add: run_goroutines_Nil run_goroutines_Cons fetchDependency_eq
        lookup_sent_answer_at)

lemma sent_before_answer_at:
  "sent_before lib (answer_at hk a s) ctx sched ds sent i = sent_before lib s ctx sched ds sent i"
  by (simp add: sent_before_def run_goroutines_sent_answer_at)

lemma takeWhile_order:
  assumes "distinct xs" and "j \<in> set xs" and "k \<in> set xs" and "j \<noteq> k"
  shows "(\<exists>mid. takeWhile (\<lambda>x. x \<noteq> k) xs = takeWhile (\<lambda>x. x \<noteq> j) xs @ j # mid)
         \<or> (\<exists>mid. takeWhile (\<lambda>x. x \<noteq> j) xs = takeWhile (\<lambda>x. x \<noteq> k) xs @ k # mid)"
  using assms
proof (induction xs)
  case Nil
  then show ?case by simp
next
  case (Cons x xs)
  show ?case
  proof (cases "x = j")
    case True
    with Cons.prems show ?thesis by simp
  next
    case xj: False
    show ?thesis
    proof (cases "x = k")
      case True
      with Cons.prems show ?thesis by simp
    next
      case False
      with xj Cons.prems have "distinct xs" "j \<in> set xs" "k \<in> set xs" by simp_all
      with Cons.IH Cons.prems(4) xj False show ?thesis by simp
    qed
  qed
qed

text \<open>A goroutine that ran earlier and reached the network saw strictly fewer requests.\<close>

lemma sent_before_earlier:
  assumes tw: "takeWhile (\<lambda>x. x \<noteq> k) sched = takeWhile (\<lambda>x. x \<noteq> j) sched @ j # mid"
    and req: "NewRequestWithContext lib ctx ''GET'' (dependencyURL lib s (ds ! j)) = Inr req0"
  shows "length (sent_before lib s ctx sched ds sent j)
           < length (sent_before lib s ctx sched ds sent k)"
proof -
  let ?st0 = "(replicate (length ds) zero_dependencyResult, sent)"
  let ?stj = "run_goroutines lib s ctx ds (takeWhile (\<lambda>x. x \<noteq> j) sched) ?st0"
  let ?hj = "sent_before lib s ctx sched ds sent j"
  have hj: "?hj = snd ?stj" by (simp add: sent_before_def)
  have "sent_before lib s ctx sched ds sent k =
          snd (run_goroutines lib s ctx ds mid
                 (fetchDependency lib s ctx j (ds ! j) (fst ?stj, snd ?stj)))"
    by (simp add: sent_before_def tw run_goroutines_append run_goroutines_Cons)
  also have "\<dots> = snd (run_goroutines lib s ctx ds mid
                 ((fst ?stj)[j := edge_outcome j (ds ! j) (fst (lookup lib s ctx (ds ! j) ?hj))],
                  snd (lookup lib s ctx (ds ! j) ?hj)))"
    by (simp only: fetchDependency_eq hj)
  finally have "length (snd (lookup lib s ctx (ds ! j) ?hj))
                  \<le> length (sent_before lib s ctx sched ds sent k)"
    by (simp add: run_goroutines_sent_length)
  with req show ?thesis
    by (simp add: lookup_sent_length)
qed

text \<open>
  C2: when the lookup of one edge fails, the error is recorded in the slot of that edge
  only: every other result is exactly what it is in the run where that lookup does not
  fail. \<open>fetchDependenciesAsync\<close> itself returns no error: its result is the list of the
  \<open>N\<close> results. The two runs are those of a service \<open>s\<close> and of the same service on the
  network that gives another answer \<open>a\<close> to the request of the edge \<open>k\<close>, a request that
  reaches the network; when the lookup of \<open>k\<close> then fails, as it does when \<open>a\<close> is a
  transport error, its error is in the slot \<open>k\<close>.
\<close>

theorem fetchDependenciesAsync_failure_isolation:
  assumes sched: "schedule (length dependencies) sched"
    and k: "k < length dependencies"
    and req: "NewRequestWithContext lib ctx ''GET'' (dependencyURL lib s (dependencies ! k))
                = Inr req0"
    and s': "s' = answer_at (sent_before lib s ctx sched dependencies sent k) a s"
  shows "length (fst (fetchDependenciesAsync lib s' ctx sched dependencies sent))
           = length dependencies
         \<and> (\<forall>j < length dependencies. j \<noteq> k \<longrightarrow>
               fst (fetchDependenciesAsync lib s' ctx sched dependencies sent) ! j
                 = fst (fetchDependenciesAsync lib s ctx sched dependencies sent) ! j)
         \<and> (\<forall>e. fst (lookup lib s' ctx (dependencies ! k)
                        (sent_before lib s ctx sched dependencies sent k)) = Inl e \<longrightarrow>
               err (fst (fetchDependenciesAsync lib s' ctx sched dependencies sent) ! k)
                 = Some e
               \<and> providingProject
                   (fst (fetchDependenciesAsync lib s' ctx sched dependencies sent) ! k)
                   = None)
         \<and> (\<forall>e. a = Inl e \<longrightarrow>
               fst (lookup lib s' ctx (dependencies ! k)
                      (sent_before lib s ctx sched dependencies sent k))
                 = Inl (Errorf ''failed to execute request'' e))"
proof -
  let ?hk = "sent_before lib s ctx sched dependencies sent k"
  let ?run = "\<lambda>s. fst (fetchDependenciesAsync lib s ctx sched dependencies sent)"
  have slot': "?run s' ! i = edge_outcome i (dependencies ! i)
                 (fst (lookup lib s' ctx (dependencies ! i)
                         (sent_before lib s ctx sched dependencies sent i)))"
    if "i < length dependencies" for i
    using fetchDependenciesAsync_slot [OF sched that, of lib s' ctx sent]
    by (simp add: s' sent_before_answer_at)
  have at_k: "err (?run s' ! k) = Some e \<and> providingProject (?run s' ! k) = None"
    if "fst (lookup lib s' ctx (dependencies ! k) ?hk) = Inl e" for e
    using slot' [OF k] that by (simp add: edge_outcome_def)
  have hit: "fst (lookup lib s' ctx (dependencies ! k) ?hk)
               = Inl (Errorf ''failed to execute request'' e)"
    if "a = Inl e" for e
    unfolding s' that using req by (rule lookup_answer_at_hit)
  have others: "?run s' ! j = ?run s ! j" if j: "j < length dependencies" and jk: "j \<noteq> k" for j
  proof -
    let ?hj = "sent_before lib s ctx sched dependencies sent j"
    have "fst (lookup lib s' ctx (dependencies ! j) ?hj)
            = fst (lookup lib s ctx (dependencies ! j) ?hj)"
    proof (cases "NewRequestWithContext lib ctx ''GET'' (dependencyURL lib s (dependencies ! j))")
      case (Inl e')
      then show ?thesis unfolding s' by (rule lookup_answer_at_create_failed)
    next
      case (Inr reqj)
      from sched j k have "distinct sched" "j \<in> set sched" "k \<in> set sched"
        by (auto simp: schedule_def)
      then consider
        mid where "takeWhile (\<lambda>x. x \<noteq> k) sched = takeWhile (\<lambda>x. x \<noteq> j) sched @ j # mid"
        | mid where "takeWhile (\<lambda>x. x \<noteq> j) sched = takeWhile (\<lambda>x. x \<noteq> k) sched @ k # mid"
        using takeWhile_order [of sched j k] jk by blast
      then have "length ?hj \<noteq> length ?hk"
      proof cases
        case 1
        then have "length ?hj < length ?hk" using Inr by (rule sent_before_earlier)
        then show ?thesis by simp
      next
        case 2
        then have "length ?hk < length ?hj" using req by (rule sent_before_earlier)
        then show ?thesis by simp
      qed
      then have "?hj \<noteq> ?hk" by auto
      then show ?thesis unfolding s' by (rule lookup_answer_at_other)
    qed
    with slot' [OF j] fetchDependenciesAsync_slot [OF sched j, of lib s ctx sent]
    show ?thesis by simp
  qed
  from at_k hit others show ?thesis
    by (simp add: length_fetchDependenciesAsync)
qed

text \<open>
  In the small catalog the request of the edge 0 is reset by the network: its slot holds
  the error and the slot of the edge 1 is the one of the run without the failure.
\<close>

theorem fetchDependenciesAsync_failure_isolation_witness:
  "schedule (length demo_dependencies) [2, 0, 1]
   \<and> (0::nat) < length demo_dependencies
   \<and> NewRequestWithContext demo_lib Background ''GET''
        (dependencyURL demo_lib (demo_service None) (demo_dependencies ! 0))
       = Inr \<lparr>Method = ''GET'',
              URL = dependencyURL demo_lib (demo_service None) (demo_dependencies ! 0),
              Header = Map.empty, Ctx = Background\<rparr>
   \<and> length (fst (fetchDependenciesAsync demo_lib
         (answer_at (sent_before demo_lib (demo_service None) Background [2, 0, 1]
                       demo_dependencies [] 0)
            (Inl (LibraryError ''connection reset by peer'')) (demo_service None))
         Background [2, 0, 1] demo_dependencies []))
       = length demo_dependencies
   \<and> err (fst (fetchDependenciesAsync demo_lib
         (answer_at (sent_before demo_lib (demo_service None) Background [2, 0, 1]
                       demo_dependencies [] 0)
            (Inl (LibraryError ''connection reset by peer'')) (demo_service None))
         Background [2, 0, 1] demo_dependencies []) ! 0)
       = Some (Errorf ''failed to execute request'' (LibraryError ''connection reset by peer''))
   \<and> providingProject (fst (fetchDependenciesAsync demo_lib
         (answer_at (sent_before demo_lib (demo_service None) Background [2, 0, 1]
                       demo_dependencies [] 0)
            (Inl (LibraryError ''connection reset by peer'')) (demo_service None))
         Background [2, 0, 1] demo_dependencies []) ! 0)
       = None
   \<and> fst (fetchDependenciesAsync demo_lib
         (answer_at (sent_before demo_lib (demo_service None) Background [2, 0, 1]
                       demo_dependencies [] 0)
            (Inl (LibraryError ''connection reset by peer'')) (demo_service None))
         Background [2, 0, 1] demo_dependencies []) ! 1
       = fst (fetchDependenciesAsync demo_lib (demo_service None) Background [2, 0, 1]
                demo_dependencies []) ! 1"
proof -
  let ?s' = "answer_at (sent_before demo_lib (demo_service None) Background [2, 0, 1]
                          demo_dependencies [] 0)
               (Inl (LibraryError ''connection reset by peer'')) (demo_service None)"
  let ?run = "\<lambda>s. fst (fetchDependenciesAsync demo_lib s Background [2, 0, 1]
                         demo_dependencies [])"
  have h: "schedule (length demo_dependencies) [2, 0, 1]"
    by (auto simp: schedule_def demo_dependencies_def)
  have k: "(0::nat) < length demo_dependencies" and j: "(1::nat) < length demo_dependencies"
    by (simp_all add: demo_dependencies_def)
  have r: "NewRequestWithContext demo_lib Background ''GET''
             (dependencyURL demo_lib (demo_service None) (demo_dependencies ! 0))
           = Inr \<lparr>Method = ''GET'',
                  URL = dependencyURL demo_lib (demo_service None) (demo_dependencies ! 0),
                  Header = Map.empty, Ctx = Background\<rparr>"
    by (simp add: demo_lib_def)
  from fetchDependenciesAsync_failure_isolation [OF h k r refl] j
  have "length (?run ?s') = length demo_dependencies
        \<and> err (?run ?s' ! 0)
            = Some (Errorf ''failed to execute request''
                      (LibraryError ''connection reset by peer''))
        \<and> providingProject (?run ?s' ! 0) = None
        \<and> ?run ?s' ! 1 = ?run (demo_service None) ! 1"
    by simp
  with h k r show ?thesis by blast
qed

text \<open>
  C3: every result of \<open>fetchDependenciesAsync\<close> is in exactly one of three states: no
  error and a providing project (resolved), no error and no providing project (not
  found), or an error and no providing project (failure). No result carries both an error
  and a providing project.
\<close>

theorem dependencyResult_states:
  assumes "schedule (length dependencies) sched"
    and "res \<in> set (fst (fetchDependenciesAsync lib s ctx sched dependencies sent))"
  shows "((err res = None \<and> providingProject res \<noteq> None)
          \<or> (err res = None \<and> providingProject res = None)
          \<or> (err res \<noteq> None \<and> providingProject res = None))
         \<and> \<not> ((err res = None \<and> providingProject res \<noteq> None)
                \<and> (err res = None \<and> providingProject res = None))
         \<and> \<not> ((err res = None \<and> providingProject res \<noteq> None)
                \<and> (err res \<noteq> None \<and> providingProject res = None))
         \<and> \<not> ((err res = None \<and> providingProject res = None)
                \<and> (err res \<noteq> None \<and> providingProject res = None))
         \<and> \<not> (err res \<noteq> None \<and> providingProject res \<noteq> None)"
proof -
  from assms(2) obtain i where "i < length dependencies"
    and "res = fst (fetchDependenciesAsync lib s ctx sched dependencies sent) ! i"
    by (auto simp: in_set_conv_nth length_fetchDependenciesAsync)
  with assms(1) show ?thesis
    by (simp add: fetchDependenciesAsync_slot edge_outcome_def split: sum.splits list.splits)
qed

theorem dependencyResult_states_witness:
  "schedule (length demo_dependencies) [2, 0, 1]
   \<and> fst (fetchDependenciesAsync demo_lib (demo_service (Some 2)) Background [2, 0, 1]
            demo_dependencies []) ! 1
       \<in> set (fst (fetchDependenciesAsync demo_lib (demo_service (Some 2)) Background [2, 0, 1]
                     demo_dependencies []))
   \<and> \<not> (err (fst (fetchDependenciesAsync demo_lib (demo_service (Some 2)) Background
                     [2, 0, 1] demo_dependencies []) ! 1) \<noteq> None
          \<and> providingProject (fst (fetchDependenciesAsync demo_lib (demo_service (Some 2))
                                      Background [2, 0, 1] demo_dependencies []) ! 1) \<noteq> None)"
proof -
  have h: "schedule (length demo_dependencies) [2, 0, 1]"
    by (auto simp: schedule_def demo_dependencies_def)
  have m: "fst (fetchDependenciesAsync demo_lib (demo_service (Some 2)) Background [2, 0, 1]
                  demo_dependencies []) ! 1
           \<in> set (fst (fetchDependenciesAsync demo_lib (demo_service (Some 2)) Background
                          [2, 0, 1] demo_dependencies []))"
    by (rule nth_mem) (simp add: length_fetchDependenciesAsync demo_dependencies_def)
  from h m dependencyResult_states [OF h m] show ?thesis by blast
qed

text \<open>
  C4: the classification of the answer of the lookup of an edge: a lookup that succeeds
  with no matching project gives a not-found result (no providing project, no error); a
  lookup that returns an error gives a failure (that error, no providing project); a
  lookup that succeeds with at least one project gives the first one as the providing
  project.
\<close>

theorem fetchDependenciesAsync_classification:
  fixes lib :: stdlib and s :: ProjectService and ctx :: Context and sched :: "nat list"
    and dependencies :: "ProjectDependency list" and sent :: "Request list" and i :: nat
  defines "r \<equiv> fst (lookup lib s ctx (dependencies ! i)
                       (sent_before lib s ctx sched dependencies sent i))"
    and "res \<equiv> fst (fetchDependenciesAsync lib s ctx sched dependencies sent) ! i"
  assumes "schedule (length dependencies) sched" and "i < length dependencies"
  shows "(\<forall>response. r = Inr response \<and> Projects response = [] \<longrightarrow>
            providingProject res = None \<and> err res = None)
         \<and> (\<forall>e. r = Inl e \<longrightarrow> err res = Some e \<and> providingProject res = None)
         \<and> (\<forall>response p ps. r = Inr response \<and> Projects response = p # ps \<longrightarrow>
              providingProject res = Some p \<and> err res = None)"
  using assms
  by (simp add: fetchDependenciesAsync_slot edge_outcome_def)

text \<open>The answers of the small catalog, whatever has been sent before.\<close>

lemma show_int_demo: "show_int 8 = ''8''" "show_int 10 = ''10''" "show_int 999 = ''999''"
  by code_simp+

lemma demo_lookup_8:
  "fst (lookup demo_lib (demo_service None) Background (demo_dependencies ! 0) h)
     = Inr \<lparr>Pagination = Map.empty, Projects = [demo_project 8 ''eight''],
            ProjectDependencies = []\<rparr>"
  by (simp add: lookup_def dependencyURL_def buildURL_def Values_Set_def makeRequest_def
        demo_lib_def demo_service_def demo_catalog_def demo_dependencies_def
        demo_dependency_def show_int_demo Let_def)

lemma demo_lookup_999:
  "fst (lookup demo_lib (demo_service None) Background (demo_dependencies ! 2) h)
     = Inr \<lparr>Pagination = Map.empty, Projects = [], ProjectDependencies = []\<rparr>"
  by (simp add: lookup_def dependencyURL_def buildURL_def Values_Set_def makeRequest_def
        demo_lib_def demo_service_def demo_catalog_def demo_dependencies_def
        demo_dependency_def show_int_demo Let_def)

lemma demo_lookup_canceled:
  "fst (lookup demo_lib (demo_service cancel) Canceled d h)
     = Inl (Errorf ''failed to execute request'' (LibraryError ''context canceled''))"
  by (simp add: lookup_def makeRequest_def demo_lib_def demo_service_def Let_def)

theorem fetchDependenciesAsync_classification_witness:
  "schedule (length demo_dependencies) [2, 0, 1]
   \<and> providingProject (fst (fetchDependenciesAsync demo_lib (demo_service None) Background
                              [2, 0, 1] demo_dependencies []) ! 2) = None
   \<and> err (fst (fetchDependenciesAsync demo_lib (demo_service None) Background
                 [2, 0, 1] demo_dependencies []) ! 2) = None
   \<and> providingProject (fst (fetchDependenciesAsync demo_lib (demo_service None) Background
                              [2, 0, 1] demo_dependencies []) ! 0)
       = Some (demo_project 8 ''eight'')
   \<and> err (fst (fetchDependenciesAsync demo_lib (demo_service None) Background
                 [2, 0, 1] demo_dependencies []) ! 0) = None
   \<and> err (fst (fetchDependenciesAsync demo_lib (demo_service None) Canceled
                 [2, 0, 1] demo_dependencies []) ! 1)
       = Some (Errorf ''failed to execute request'' (LibraryError ''context canceled''))
   \<and> providingProject (fst (fetchDependenciesAsync demo_lib (demo_service None) Canceled
                              [2, 0, 1] demo_dependencies []) ! 1) = None"
proof -
  have h: "schedule (length demo_dependencies) [2, 0, 1]"
    by (auto simp: schedule_def demo_dependencies_def)
  have n: "(0::nat) < length demo_dependencies" "(1::nat) < length demo_dependencies"
    "(2::nat) < length demo_dependencies"
    by (simp_all add: demo_dependencies_def)
  from fetchDependenciesAsync_classification
         [OF h n(3), of demo_lib "demo_service None" Background "[]"]
  have a: "providingProject (fst (fetchDependenciesAsync demo_lib (demo_service None)
             Background [2, 0, 1] demo_dependencies []) ! 2) = None
           \<and> err (fst (fetchDependenciesAsync demo_lib (demo_service None) Background
                         [2, 0, 1] demo_dependencies []) ! 2) = None"
    by (simp add: demo_lookup_999)
  from fetchDependenciesAsync_classification
         [OF h n(1), of demo_lib "demo_service None" Background "[]"]
  have b: "providingProject (fst (fetchDependenciesAsync demo_lib (demo_service None)
             Background [2, 0, 1] demo_dependencies []) ! 0) = Some (demo_project 8 ''eight'')
           \<and> err (fst (fetchDependenciesAsync demo_lib (demo_service None) Background
                         [2, 0, 1] demo_dependencies []) ! 0) = None"
    by (simp add: demo_lookup_8)
  from fetchDependenciesAsync_classification
         [OF h n(2), of demo_lib "demo_service None" Canceled "[]"]
  have c: "err (fst (fetchDependenciesAsync demo_lib (demo_service None) Canceled
                 [2, 0, 1] demo_dependencies []) ! 1)
             = Some (Errorf ''failed to execute request'' (LibraryError ''context canceled''))
           \<and> providingProject (fst (fetchDependenciesAsync demo_lib (demo_service None)
                 Canceled [2, 0, 1] demo_dependencies []) ! 1) = None"
    by (simp add: demo_lookup_canceled)
  from h a b c show ?thesis by blast
qed

text \<open>
  C5: for the empty list of dependencies \<open>fetchDependenciesAsync\<close> returns the empty
  list of results and sends no request; so the number of results is the number of
  dependencies for every input, the empty list included.
\<close>

theorem fetchDependenciesAsync_empty:
  "(schedule 0 sched \<longrightarrow> fetchDependenciesAsync lib s ctx sched [] sent = ([], sent))
   \<and> (schedule (length dependencies) sched' \<longrightarrow>
        length (fst (fetchDependenciesAsync lib s ctx sched' dependencies sent))
          = length dependencies)"
  by (simp add: schedule_def fetchDependenciesAsync_def run_goroutines_Nil
        length_run_goroutines)

theorem fetchDependenciesAsync_empty_witness:
  "schedule 0 []
   \<and> fetchDependenciesAsync demo_lib (demo_service None) Background [] [] [] = ([], [])
   \<and> schedule (length demo_dependencies) [2, 0, 1]
   \<and> length (fst (fetchDependenciesAsync demo_lib (demo_service None) Background [2, 0, 1]
                    demo_dependencies []))
       = length demo_dependencies"
proof -
  have e: "schedule 0 []"
    by (simp add: schedule_def)
  have h: "schedule (length demo_dependencies) [2, 0, 1]"
    by (auto simp: schedule_def demo_dependencies_def)
  from e h
    fetchDependenciesAsync_empty
      [of "[]" demo_lib "demo_service None" Background "[]" demo_dependencies "[2, 0, 1]"]
  show ?thesis by blast
qed

text \<open>
  C10: the result in the slot \<open>i\<close> has the index \<open>i\<close> and carries the dependency at the
  index \<open>i\<close> of the input, unchanged, whether the edge failed, was not found or was
  resolved.
\<close>

theorem fetchDependenciesAsync_index_dep:
  assumes "schedule (length dependencies) sched" and "i < length dependencies"
  shows "index (fst (fetchDependenciesAsync lib s ctx sched dependencies sent) ! i) = int i
         \<and> dep (fst (fetchDependenciesAsync lib s ctx sched dependencies sent) ! i)
             = dependencies ! i"
  using assms
  by (simp add: fetchDependenciesAsync_slot edge_outcome_def split: sum.splits list.splits)

theorem fetchDependenciesAsync_index_dep_witness:
  "schedule (length demo_dependencies) [2, 0, 1]
   \<and> (1::nat) < length demo_dependencies
   \<and> index (fst (fetchDependenciesAsync demo_lib (demo_service (Some 2)) Background [2, 0, 1]
                   demo_dependencies []) ! 1) = 1
   \<and> dep (fst (fetchDependenciesAsync demo_lib (demo_service (Some 2)) Background [2, 0, 1]
                 demo_dependencies []) ! 1)
       = demo_dependency 2 5 10"
proof -
  have h: "schedule (length demo_dependencies) [2, 0, 1]"
    by (auto simp: schedule_def demo_dependencies_def)
  have n: "(1::nat) < length demo_dependencies"
    by (simp add: demo_dependencies_def)
  have "demo_dependencies ! 1 = demo_dependency 2 5 10"
    by (simp add: demo_dependencies_def)
  with h n
    fetchDependenciesAsync_index_dep
      [OF h n, of demo_lib "demo_service (Some 2)" Background "[]"]
  show ?thesis by simp
qed

text \<open>
  C8: when the supplied context is canceled before any lookup completes, every lookup of
  an edge returns a cancellation error, and \<open>fetchDependenciesAsync\<close> still returns \<open>N\<close>
  results, each the failure of its own edge, none with a providing project. When the
  context is canceled during the run, each lookup that is outstanding gets its own
  failure and each edge that has completed keeps its result. \<open>makeRequest\<close> builds its
  request with the context it is given and hands it to \<open>httpClient.Do\<close>; the library is
  taken at its word: \<open>http.NewRequestWithContext\<close> keeps the context on the request, and
  the client fails the requests of a canceled context. In the second part the goroutines of
  \<open>pre\<close> have completed when the context is canceled, and those of \<open>post\<close> are
  outstanding: the client fails the requests that carry the context from that moment.
\<close>

theorem fetchDependenciesAsync_canceled:
  fixes lib :: stdlib and s :: ProjectService and ctx :: Context
    and pre :: "nat list" and post :: "nat list"
    and dependencies :: "ProjectDependency list" and sent :: "Request list"
  defines "completed \<equiv> run_goroutines lib s ctx dependencies pre
                          (replicate (length dependencies) zero_dependencyResult, sent)"
    and "results \<equiv> fst (fetchDependenciesAsync lib s ctx (pre @ post) dependencies sent)"
  assumes sched: "schedule (length dependencies) (pre @ post)"
    and keeps: "\<forall>method url req. NewRequestWithContext lib ctx method url = Inr req
                  \<longrightarrow> Ctx req = ctx"
  shows "length results = length dependencies
         \<and> (ctx = Canceled
             \<and> (\<forall>h req. Ctx req = Canceled \<longrightarrow> isl (Do (httpClient (client s)) h req))
             \<longrightarrow> (\<forall>i < length dependencies.
                    \<exists>e. fst (lookup lib s ctx (dependencies ! i)
                               (sent_before lib s ctx (pre @ post) dependencies sent i))
                          = Inl e
                        \<and> err (results ! i) = Some e
                        \<and> providingProject (results ! i) = None))
         \<and> ((\<forall>h req. prefix (snd completed) h \<and> Ctx req = ctx
                        \<longrightarrow> isl (Do (httpClient (client s)) h req))
             \<longrightarrow> (\<forall>i \<in> set post.
                    \<exists>e. fst (lookup lib s ctx (dependencies ! i)
                               (sent_before lib s ctx (pre @ post) dependencies sent i))
                          = Inl e
                        \<and> err (results ! i) = Some e
                        \<and> providingProject (results ! i) = None))
         \<and> (\<forall>i \<in> set pre. results ! i = fst completed ! i)"
proof -
  have slot: "results ! i = edge_outcome i (dependencies ! i)
                (fst (lookup lib s ctx (dependencies ! i)
                        (sent_before lib s ctx (pre @ post) dependencies sent i)))"
    if "i < length dependencies" for i
    unfolding results_def using sched that by (rule fetchDependenciesAsync_slot)
  have failure: "\<exists>e. fst (lookup lib s ctx (dependencies ! i)
                            (sent_before lib s ctx (pre @ post) dependencies sent i)) = Inl e
                     \<and> err (results ! i) = Some e \<and> providingProject (results ! i) = None"
    if i: "i < length dependencies"
      and f: "\<forall>req. Ctx req = ctx \<longrightarrow>
                isl (Do (httpClient (client s))
                       (sent_before lib s ctx (pre @ post) dependencies sent i) req)"
    for i
  proof -
    let ?h = "sent_before lib s ctx (pre @ post) dependencies sent i"
    let ?u = "dependencyURL lib s (dependencies ! i)"
    have "isl (fst (makeRequest lib (client s) ctx ?u ?h))"
    proof (cases "NewRequestWithContext lib ctx ''GET'' ?u")
      case (Inl e)
      then show ?thesis by (simp add: makeRequest_def)
    next
      case (Inr req0)
      let ?req = "req0\<lparr>Header := Values_Set
                    (Values_Set (Header req0) ''Authorization''
                       (''Token '' @ token (client s)))
                    ''Accept'' ''application/json''\<rparr>"
      from keeps Inr have "Ctx req0 = ctx" by blast
      then have "Ctx ?req = ctx" by simp
      with f have "isl (Do (httpClient (client s)) ?h ?req)" by blast
      then obtain e where "Do (httpClient (client s)) ?h ?req = Inl e"
        by (auto simp: isl_def)
      with Inr show ?thesis by (simp add: makeRequest_def Let_def)
    qed
    then obtain e where e: "fst (lookup lib s ctx (dependencies ! i) ?h) = Inl e"
      by (auto simp: isl_def lookup_def)
    with slot [OF i] have "err (results ! i) = Some e"
      and "providingProject (results ! i) = None"
      by (simp_all add: edge_outcome_def)
    with e show ?thesis by simp
  qed
  have len: "length results = length dependencies"
    by (simp add: results_def length_fetchDependenciesAsync)
  have before: "\<forall>i < length dependencies.
                  \<exists>e. fst (lookup lib s ctx (dependencies ! i)
                             (sent_before lib s ctx (pre @ post) dependencies sent i)) = Inl e
                      \<and> err (results ! i) = Some e \<and> providingProject (results ! i) = None"
    if c: "ctx = Canceled"
      and h: "\<forall>h req. Ctx req = Canceled \<longrightarrow> isl (Do (httpClient (client s)) h req)"
  proof (intro allI impI)
    fix i assume i: "i < length dependencies"
    from c h have "\<forall>req. Ctx req = ctx \<longrightarrow>
        isl (Do (httpClient (client s))
               (sent_before lib s ctx (pre @ post) dependencies sent i) req)"
      by blast
    with i show "\<exists>e. fst (lookup lib s ctx (dependencies ! i)
                            (sent_before lib s ctx (pre @ post) dependencies sent i)) = Inl e
                     \<and> err (results ! i) = Some e \<and> providingProject (results ! i) = None"
      by (rule failure)
  qed
  have during: "\<forall>i \<in> set post.
                  \<exists>e. fst (lookup lib s ctx (dependencies ! i)
                             (sent_before lib s ctx (pre @ post) dependencies sent i)) = Inl e
                      \<and> err (results ! i) = Some e \<and> providingProject (results ! i) = None"
    if h: "\<forall>h req. prefix (snd completed) h \<and> Ctx req = ctx
             \<longrightarrow> isl (Do (httpClient (client s)) h req)"
  proof
    fix i assume "i \<in> set post"
    with sched have "i \<notin> set pre" and i: "i < length dependencies"
      by (auto simp: schedule_def)
    let ?h = "sent_before lib s ctx (pre @ post) dependencies sent i"
    from \<open>i \<notin> set pre\<close>
    have "takeWhile (\<lambda>j. j \<noteq> i) (pre @ post) = pre @ takeWhile (\<lambda>j. j \<noteq> i) post"
      by (intro takeWhile_append2) auto
    then have "?h = snd (run_goroutines lib s ctx dependencies (takeWhile (\<lambda>j. j \<noteq> i) post)
                          (fst completed, snd completed))"
      by (simp add: sent_before_def run_goroutines_append completed_def)
    then have "prefix (snd completed) ?h"
      using run_goroutines_prefix
        [of "snd completed" lib s ctx dependencies "takeWhile (\<lambda>j. j \<noteq> i) post"
            "fst completed"]
      by simp
    with h have "\<forall>req. Ctx req = ctx \<longrightarrow> isl (Do (httpClient (client s)) ?h req)"
      by blast
    with i show "\<exists>e. fst (lookup lib s ctx (dependencies ! i) ?h) = Inl e
                     \<and> err (results ! i) = Some e \<and> providingProject (results ! i) = None"
      by (rule failure)
  qed
  have kept: "\<forall>i \<in> set pre. results ! i = fst completed ! i"
  proof
    fix i assume "i \<in> set pre"
    with sched have "i \<notin> set post" by (auto simp: schedule_def)
    then show "results ! i = fst completed ! i"
      using run_goroutines_untouched
        [of i post lib s ctx dependencies "fst completed" "snd completed"]
      by (simp add: results_def fetchDependenciesAsync_def run_goroutines_append
            completed_def)
  qed
  from len before during kept show ?thesis by blast
qed

text \<open>
  In the small catalog, first with the context canceled before the call: the three
  results are cancellation failures. Then with a live context that is canceled when one
  request has been sent: the goroutine of the edge 2 has completed and keeps its result
  (not found), those of the edges 0 and 1 are outstanding and fail.
\<close>

theorem fetchDependenciesAsync_canceled_witness:
  "schedule (length demo_dependencies) [2, 0, 1]
   \<and> length (fst (fetchDependenciesAsync demo_lib (demo_service None) Canceled [2, 0, 1]
                    demo_dependencies []))
       = length demo_dependencies
   \<and> err (fst (fetchDependenciesAsync demo_lib (demo_service None) Canceled [2, 0, 1]
                 demo_dependencies []) ! 0)
       = Some (Errorf ''failed to execute request'' (LibraryError ''context canceled''))
   \<and> providingProject (fst (fetchDependenciesAsync demo_lib (demo_service None) Canceled
                              [2, 0, 1] demo_dependencies []) ! 0) = None
   \<and> err (fst (fetchDependenciesAsync demo_lib (demo_service None) Canceled [2, 0, 1]
                 demo_dependencies []) ! 2)
       = Some (Errorf ''failed to execute request'' (LibraryError ''context canceled''))
   \<and> providingProject (fst (fetchDependenciesAsync demo_lib (demo_service None) Canceled
                              [2, 0, 1] demo_dependencies []) ! 2) = None
   \<and> (\<exists>e. err (fst (fetchDependenciesAsync demo_lib (demo_service (Some 1)) Background
                      [2, 0, 1] demo_dependencies []) ! 0) = Some e)
   \<and> providingProject (fst (fetchDependenciesAsync demo_lib (demo_service (Some 1)) Background
                              [2, 0, 1] demo_dependencies []) ! 0) = None
   \<and> fst (fetchDependenciesAsync demo_lib (demo_service (Some 1)) Background
            [2, 0, 1] demo_dependencies []) ! 2
       = fst (run_goroutines demo_lib (demo_service (Some 1)) Background demo_dependencies [2]
                (replicate (length demo_dependencies) zero_dependencyResult, [])) ! 2"
proof -
  let ?canceled = "fst (fetchDependenciesAsync demo_lib (demo_service None) Canceled
                          ([] @ [2, 0, 1]) demo_dependencies [])"
  let ?during = "fst (fetchDependenciesAsync demo_lib (demo_service (Some 1)) Background
                        ([2] @ [0, 1]) demo_dependencies [])"
  let ?completed = "run_goroutines demo_lib (demo_service (Some 1)) Background
                      demo_dependencies [2]
                      (replicate (length demo_dependencies) zero_dependencyResult, [])"
  have h0: "schedule (length demo_dependencies) ([] @ [2, 0, 1])"
    by (auto simp: schedule_def demo_dependencies_def)
  have h1: "schedule (length demo_dependencies) ([2] @ [0, 1])"
    by (auto simp: schedule_def demo_dependencies_def)
  have n: "(0::nat) < length demo_dependencies" "(2::nat) < length demo_dependencies"
    by (simp_all add: demo_dependencies_def)
  have keeps: "\<forall>method url req. NewRequestWithContext demo_lib ctx method url = Inr req
                 \<longrightarrow> Ctx req = ctx" for ctx
    by (auto simp: demo_lib_def)
  have honours: "\<forall>h req. Ctx req = Canceled
                   \<longrightarrow> isl (Do (httpClient (client (demo_service None))) h req)"
    by (simp add: demo_service_def)
  from fetchDependenciesAsync_canceled
         [OF h0 keeps [of Canceled], where s = "demo_service None" and sent = "[]"]
       honours n
  have a: "length ?canceled = length demo_dependencies
           \<and> err (?canceled ! 0)
               = Some (Errorf ''failed to execute request'' (LibraryError ''context canceled''))
           \<and> providingProject (?canceled ! 0) = None
           \<and> err (?canceled ! 2)
               = Some (Errorf ''failed to execute request'' (LibraryError ''context canceled''))
           \<and> providingProject (?canceled ! 2) = None"
    by (auto simp: demo_lookup_canceled)
  have "NewRequestWithContext demo_lib Background ''GET''
          (dependencyURL demo_lib (demo_service (Some 1)) (demo_dependencies ! 2))
        = Inr \<lparr>Method = ''GET'',
               URL = dependencyURL demo_lib (demo_service (Some 1)) (demo_dependencies ! 2),
               Header = Map.empty, Ctx = Background\<rparr>"
    by (simp add: demo_lib_def)
  then have one: "length (snd ?completed) = 1"
    by (simp add: run_goroutines_Cons run_goroutines_Nil fetchDependency_eq
          lookup_sent_length)
  have c: "\<forall>h req. prefix (snd ?completed) h \<and> Ctx req = Background
             \<longrightarrow> isl (Do (httpClient (client (demo_service (Some 1)))) h req)"
  proof (intro allI impI)
    fix h and req :: Request
    assume "prefix (snd ?completed) h \<and> Ctx req = Background"
    then have "length (snd ?completed) \<le> length h" by (simp add: prefix_length_le)
    with one have "1 \<le> length h" by simp
    then show "isl (Do (httpClient (client (demo_service (Some 1)))) h req)"
      by (simp add: demo_service_def split: Context.splits)
  qed
  have m: "(0::nat) \<in> set [0, 1]" "(2::nat) \<in> set [2]" by simp_all
  from fetchDependenciesAsync_canceled
         [OF h1 keeps [of Background], where s = "demo_service (Some 1)" and sent = "[]"]
       c m
  have b: "(\<exists>e. err (?during ! 0) = Some e)
           \<and> providingProject (?during ! 0) = None
           \<and> ?during ! 2 = fst ?completed ! 2"
    by blast
  from h0 a b show ?thesis by simp
qed

section \<open>The claims on the two operations of the service\<close>

text \<open>
  C6: when the query for the root project succeeds and matches no project,
  \<open>GetProjectDependencies\<close> returns the \<open>ProjectNotFoundError\<close> of the permalink, and the
  only request sent is that query: no lookup of a dependency is made.
\<close>

theorem GetProjectDependencies_not_found:
  assumes "ValidateProjectPermalink (validator s) permalink = None"
    and "makeRequest lib (client s) ctx
           (buildURL lib (client s)
              \<lparr>searchKey = ''permalink'', searchValue = permalink, inlines = inlines_all,
               includes' = ''dependent_project_dependencies''\<rparr>)
           sent = (Inr response, sent')"
    and "Projects response = []"
  shows "GetProjectDependencies lib s ctx sched permalink sent
           = (Inl (ProjectNotFoundError permalink), sent')
         \<and> (\<exists>req. sent' = sent @ [req])"
proof -
  from assms(2) have "\<exists>req. sent' = sent @ [req]"
    by (rule makeRequest_sent_Inr)
  with assms show ?thesis
    by (simp add: GetProjectDependencies_def)
qed

theorem GetProjectDependencies_not_found_witness:
  "ValidateProjectPermalink (validator (demo_service None)) ''missing-permalink'' = None
   \<and> fst (GetProjectDependencies demo_lib (demo_service None) Background [2, 0, 1]
            ''missing-permalink'' [])
       = Inl (ProjectNotFoundError ''missing-permalink'')
   \<and> length (snd (GetProjectDependencies demo_lib (demo_service None) Background [2, 0, 1]
                    ''missing-permalink'' [])) = 1"
proof -
  let ?q = "makeRequest demo_lib (client (demo_service None)) Background
              (buildURL demo_lib (client (demo_service None))
                 \<lparr>searchKey = ''permalink'', searchValue = ''missing-permalink'',
                  inlines = inlines_all, includes' = ''dependent_project_dependencies''\<rparr>)
              []"
  let ?none = "\<lparr>Pagination = Map.empty, Projects = [], ProjectDependencies = []\<rparr>"
  have v: "ValidateProjectPermalink (validator (demo_service None)) ''missing-permalink''
             = None"
    by code_simp
  have "fst ?q = Inr ?none"
    by (simp add: buildURL_def Values_Set_def Values_Add_def makeRequest_def demo_lib_def
          demo_service_def demo_catalog_def inlines_all_def Let_def)
  then have q: "?q = (Inr ?none, snd ?q)"
    by (simp add: prod_eq_iff)
  have p: "Projects ?none = []" by simp
  from GetProjectDependencies_not_found [OF v q p, of "[2, 0, 1]"] v show ?thesis
    by auto
qed

text \<open>
  C7: for a permalink that \<open>ValidateProjectPermalink\<close> rejects, \<open>GetProjectDetails\<close> and
  \<open>GetProjectDependencies\<close> both return that \<open>ValidationError\<close> and send no request.
\<close>

theorem validation_before_network:
  assumes "ValidateProjectPermalink (validator s) permalink = Some e"
  shows "GetProjectDetails lib s ctx permalink sent = (Inl e, sent)
         \<and> GetProjectDependencies lib s ctx sched permalink sent = (Inl e, sent)
         \<and> e = ValidationError ''project_permalink'' ''cannot be empty''"
  using assms
  by (auto simp: GetProjectDetails_def GetProjectDependencies_def
        ValidateProjectPermalink_def split: if_splits)

theorem validation_before_network_witness:
  "ValidateProjectPermalink (validator (demo_service None)) ''   ''
     = Some (ValidationError ''project_permalink'' ''cannot be empty'')
   \<and> GetProjectDetails demo_lib (demo_service None) Background ''   '' []
       = (Inl (ValidationError ''project_permalink'' ''cannot be empty''), [])
   \<and> GetProjectDependencies demo_lib (demo_service None) Background [2, 0, 1] ''   '' []
       = (Inl (ValidationError ''project_permalink'' ''cannot be empty''), [])"
proof -
  have v: "ValidateProjectPermalink (validator (demo_service None)) ''   ''
             = Some (ValidationError ''project_permalink'' ''cannot be empty'')"
    by code_simp
  from validation_before_network [OF v, of demo_lib Background "[]" "[2, 0, 1]"] v
  show ?thesis by blast
qed

end
